theory Spec2Isabelle
  imports Main "HOL-Library.Multiset" "HOL-Library.Sublist"
begin

section \<open>The booking backend of public/Booking.js\<close>

text \<open>
  The server is a set of Express route handlers over one Mongoose model, \<open>Booking\<close>.
  Three collaborators are libraries outside the repository: the document store
  (Mongoose), the mail transport (nodemailer) and the token library (jsonwebtoken). What
  they answer in one request is an input of the model, gathered in the record \<open>env\<close>;
  what the handlers do with the answers is translated from the source. The source
  file also holds a second schema (with \<open>bookingDate\<close>, \<open>serviceType\<close>, \<open>carModel\<close>) that the
  server does not use; the server defines its own \<open>bookingSchema\<close>, modelled here.
\<close>

subsection \<open>Data model\<close>

text \<open>
  \<open>bookingSchema\<close>: five required strings, an optional \<open>message\<close>, \<open>status\<close> with
  default \<open>"Pending"\<close>, \<open>archived\<close> with default \<open>false\<close>, and, by
  \<open>timestamps: true\<close>, the store-managed \<open>createdAt\<close> and \<open>updatedAt\<close>.
  \<open>bid\<close> is the document's \<open>_id\<close>, an opaque identifier; times are clock readings in
  milliseconds. A \<open>char\<close> of a string is one character of the text (codes 0 to 255).
\<close>

type_synonym oid = nat

record booking =
  bid :: oid
  name :: string
  email :: string
  phone :: string
  service :: string
  date :: string
  message :: "string option"
  status :: string
  archived :: bool
  createdAt :: nat
  updatedAt :: nat

text \<open>The collection, in natural (insertion) order.\<close>

type_synonym store = "booking list"

text \<open>
  The parsed body of a create request. A field is absent (\<open>None\<close>, JavaScript's
  \<open>undefined\<close>) or holds a string; bodies whose fields hold other JSON values are
  outside this model. \<open>req.body\<close> itself is a \<open>create_body option\<close>: it is
  \<open>undefined\<close> (\<open>None\<close>) when \<open>express.json()\<close> parsed no body and the framework
  leaves \<open>req.body\<close> unset (Express 5; Express 4 sets it to the empty object, which is
  the record with every field absent).
\<close>

record create_body =
  req_name :: "string option"
  req_email :: "string option"
  req_phone :: "string option"
  req_service :: "string option"
  req_date :: "string option"
  req_message :: "string option"

text \<open>
  What the collaborators answer during one request:
  \<^item> \<open>now\<close>: the clock reading the store uses for timestamps;
  \<^item> \<open>new_id\<close>: the \<open>_id\<close> the store gives a document inserted in this request;
  \<^item> \<open>store_ok\<close>: the document-store calls of this request resolve (when false, the
    first one rejects: connection lost, cast error, ...);
  \<^item> \<open>mail_customer_ok\<close>, \<open>mail_admin_ok\<close>: the first and the second
    \<open>transporter.sendMail\<close> resolve;
  \<^item> \<open>jwt_verify token\<close>: \<open>jwt.verify(token, JWT_SECRET)\<close> returns (it throws on a bad
    signature and on an expired token);
  \<^item> \<open>fold_other\<close>: how the store's case-insensitive matching folds a non-ASCII
    character (the identity when it folds ASCII letters only);
  \<^item> \<open>regex_other\<close>: the store's answer for a \<open>$regex\<close> pattern outside the fragment
    modelled below.
\<close>

record env =
  now :: nat
  new_id :: oid
  store_ok :: bool
  mail_customer_ok :: bool
  mail_admin_ok :: bool
  jwt_verify :: "string \<Rightarrow> bool"
  fold_other :: "char \<Rightarrow> char"
  regex_other :: "string \<Rightarrow> string \<Rightarrow> bool"

text \<open>
  A JSON response body, and what a handler leaves behind: a response with its status
  code, or \<open>Escaped\<close> when the promise of an \<open>async\<close> handler rejects and the handler
  itself sends nothing (what the client then gets is up to the framework: no answer, or
  its default error page).
\<close>

datatype body =
  Message string
  | BookingList "booking list"
  | BookingDoc "booking option"
  | StatsBody nat nat nat

datatype outcome = Responded nat body | Escaped

subsection \<open>Create booking (public)\<close>

text \<open>JavaScript's \<open>!v\<close> on an absent or string value: true for \<open>undefined\<close> and \<open>""\<close>.\<close>

definition falsy :: "string option \<Rightarrow> bool" where
  "falsy v = (case v of None \<Rightarrow> True | Some s \<Rightarrow> s = [])"

text \<open>
  \<open>new Booking({name, email, phone, service, date, message})\<close> followed by a successful
  \<open>save()\<close>: the schema defaults fill \<open>status\<close> and \<open>archived\<close>, the store fills \<open>_id\<close>
  and both timestamps.
\<close>

definition new_booking :: "env \<Rightarrow> create_body \<Rightarrow> booking" where
  "new_booking e b =
     \<lparr>bid = new_id e,
      name = the (req_name b), email = the (req_email b), phone = the (req_phone b),
      service = the (req_service b), date = the (req_date b),
      message = req_message b,
      status = ''Pending'', archived = False,
      createdAt = now e, updatedAt = now e\<rparr>"

text \<open>
  The handler of \<open>POST /api/bookings\<close>. The whole body of the handler is one \<open>try\<close>.
  Its first statement destructures \<open>req.body\<close>, which throws when \<open>req.body\<close> is
  \<open>undefined\<close>; a rejected \<open>save()\<close> and a rejected \<open>sendMail\<close> throw as well. Every
  throw ends in the \<open>catch\<close>, which answers 500. The document written by \<open>save()\<close>
  stays written when a later \<open>sendMail\<close> rejects.
\<close>

definition create_booking ::
  "env \<Rightarrow> create_body option \<Rightarrow> store \<Rightarrow> outcome \<times> store" where
  "create_booking e body db =
     (case body of
        None \<Rightarrow> (Responded 500 (Message ''Server error''), db)
      | Some b \<Rightarrow>
          if falsy (req_name b) \<or> falsy (req_email b) \<or> falsy (req_phone b)
               \<or> falsy (req_service b) \<or> falsy (req_date b)
          then (Responded 400 (Message ''All required fields are required''), db)
          else if \<not> store_ok e
          then (Responded 500 (Message ''Server error''), db)
          else if \<not> mail_customer_ok e
          then (Responded 500 (Message ''Server error''), db @ [new_booking e b])
          else if \<not> mail_admin_ok e
          then (Responded 500 (Message ''Server error''), db @ [new_booking e b])
          else (Responded 201 (Message ''Booking successful''), db @ [new_booking e b]))"

subsection \<open>Auth middleware\<close>

text \<open>
  \<open>header.split(" ")\<close>: the pieces between single spaces; an empty string gives one
  empty piece, two adjacent spaces give an empty piece between them.
\<close>

fun split_sp :: "string \<Rightarrow> string list" where
  "split_sp [] = [[]]"
| "split_sp (c # cs) =
     (if c = CHR '' '' then [] # split_sp cs
      else (case split_sp cs of [] \<Rightarrow> [[c]] | w # ws \<Rightarrow> (c # w) # ws))"

text \<open>
  \<open>header.split(" ")[1]\<close>: the second piece, \<open>undefined\<close> (\<open>None\<close>) when there is
  none.
\<close>

definition token_of :: "string \<Rightarrow> string option" where
  "token_of h = (case split_sp h of _ # t # _ \<Rightarrow> Some t | _ \<Rightarrow> None)"

datatype gate = Next | Reject nat string

text \<open>
  \<open>verifyToken\<close>. \<open>req.headers.authorization\<close> is \<open>undefined\<close> (\<open>None\<close>) or a
  string; \<open>!header\<close> also holds for the empty string. A throwing \<open>jwt.verify\<close> lands
  in the \<open>catch\<close>.
\<close>

definition verifyToken :: "env \<Rightarrow> string option \<Rightarrow> gate" where
  "verifyToken e header =
     (if falsy header then Reject 401 ''No token provided''
      else if falsy (token_of (the header)) then Reject 401 ''Invalid token format''
      else if jwt_verify e (the (token_of (the header))) then Next
      else Reject 403 ''Invalid or expired token'')"

subsection \<open>The document store\<close>

text \<open>
  The calls of the Mongoose model the handlers use, on the collection as a list.
  \<open>findById\<close> gives the first document with the \<open>_id\<close>, or \<open>null\<close> (\<open>None\<close>).
\<close>

definition findById :: "store \<Rightarrow> oid \<Rightarrow> booking option" where
  "findById db i = find (\<lambda>b. bid b = i) db"

text \<open>
  \<open>findByIdAndUpdate(id, update)\<close> applies the update to the first document with the
  \<open>_id\<close> and is a no-op when there is none. \<open>findByIdAndDelete(id)\<close> removes that
  document, or nothing.
\<close>

fun findByIdAndUpdate :: "(booking \<Rightarrow> booking) \<Rightarrow> oid \<Rightarrow> store \<Rightarrow> store" where
  "findByIdAndUpdate f i [] = []"
| "findByIdAndUpdate f i (b # bs) =
     (if bid b = i then f b # bs else b # findByIdAndUpdate f i bs)"

fun findByIdAndDelete :: "oid \<Rightarrow> store \<Rightarrow> store" where
  "findByIdAndDelete i [] = []"
| "findByIdAndDelete i (b # bs) =
     (if bid b = i then bs else b # findByIdAndDelete i bs)"

definition countDocuments :: "(booking \<Rightarrow> bool) \<Rightarrow> store \<Rightarrow> nat" where
  "countDocuments P db = length (filter P db)"

text \<open>\<open>.sort({createdAt: -1})\<close>: descending by creation time, as an insertion sort.\<close>

fun insert_desc :: "booking \<Rightarrow> booking list \<Rightarrow> booking list" where
  "insert_desc b [] = [b]"
| "insert_desc b (x # xs) =
     (if createdAt x \<le> createdAt b then b # x # xs else x # insert_desc b xs)"

fun sort_desc :: "booking list \<Rightarrow> booking list" where
  "sort_desc [] = []"
| "sort_desc (b # bs) = insert_desc b (sort_desc bs)"

text \<open>
  The two update documents. The schema has \<open>timestamps: true\<close>, so the store also
  sets \<open>updatedAt\<close> on every update it applies.
\<close>

definition set_completed :: "env \<Rightarrow> booking \<Rightarrow> booking" where
  "set_completed e b = b\<lparr>status := ''Completed'', updatedAt := now e\<rparr>"

definition set_archived :: "env \<Rightarrow> booking \<Rightarrow> booking" where
  "set_archived e b = b\<lparr>archived := True, updatedAt := now e\<rparr>"

subsection \<open>The \<open>$regex\<close> operator with option \<open>i\<close>\<close>

text \<open>
  \<open>{ $regex: term, $options: "i" }\<close> hands the term to the store as a regular
  expression, searched anywhere in the field. The fragment modelled here: a character
  that is no metacharacter stands for itself, ignoring case, and \<open>.\<close> stands for any
  character but a newline. A term with another metacharacter is outside the fragment,
  and the answer for it is the parameter \<open>regex_other\<close>.

  Ignoring case: two characters match when they fold to the same character. An ASCII
  capital folds to its small letter and every other ASCII character to itself; how a
  non-ASCII character folds is the store's business, the parameter \<open>fold_other\<close>.
\<close>

datatype rx_atom = Lit char | AnyChar

definition is_meta :: "char \<Rightarrow> bool" where
  "is_meta c = (c \<in> set [CHR 0x5C, CHR ''^'', CHR ''$'', CHR ''.'', CHR ''|'', CHR ''?'',
     CHR ''*'', CHR ''+'', CHR ''('', CHR '')'', CHR ''['', CHR '']'', CHR ''{'', CHR ''}''])"

definition to_lower :: "env \<Rightarrow> char \<Rightarrow> char" where
  "to_lower e c =
     (let n = (of_char c :: nat) in
        if 65 \<le> n \<and> n \<le> 90 then char_of (n + 32)
        else if n < 128 then c
        else fold_other e c)"

definition rx_atom_of :: "char \<Rightarrow> rx_atom option" where
  "rx_atom_of c =
     (if c = CHR ''.'' then Some AnyChar
      else if is_meta c then None
      else Some (Lit c))"

fun rx_compile :: "string \<Rightarrow> rx_atom list option" where
  "rx_compile [] = Some []"
| "rx_compile (c # cs) =
     (case rx_atom_of c of
        None \<Rightarrow> None
      | Some a \<Rightarrow> (case rx_compile cs of None \<Rightarrow> None | Some p \<Rightarrow> Some (a # p)))"

fun atom_match :: "(char \<Rightarrow> char) \<Rightarrow> rx_atom \<Rightarrow> char \<Rightarrow> bool" where
  "atom_match f (Lit l) c = (f l = f c)"
| "atom_match f AnyChar c = (c \<noteq> CHR 0x0A)"

fun rx_prefix :: "(char \<Rightarrow> char) \<Rightarrow> rx_atom list \<Rightarrow> string \<Rightarrow> bool" where
  "rx_prefix f [] s = True"
| "rx_prefix f (a # p) [] = False"
| "rx_prefix f (a # p) (c # cs) = (atom_match f a c \<and> rx_prefix f p cs)"

fun rx_search :: "(char \<Rightarrow> char) \<Rightarrow> rx_atom list \<Rightarrow> string \<Rightarrow> bool" where
  "rx_search f p [] = rx_prefix f p []"
| "rx_search f p (c # cs) = (rx_prefix f p (c # cs) \<or> rx_search f p cs)"

definition regex_i :: "env \<Rightarrow> string \<Rightarrow> string \<Rightarrow> bool" where
  "regex_i e term s =
     (case rx_compile term of
        Some p \<Rightarrow> rx_search (to_lower e) p s
      | None \<Rightarrow> regex_other e term s)"

text \<open>
  The spec's words for the search: the field contains the term as a substring, ignoring
  case.
\<close>

definition ci_contains :: "env \<Rightarrow> string \<Rightarrow> string \<Rightarrow> bool" where
  "ci_contains e term s = sublist (map (to_lower e) term) (map (to_lower e) s)"

subsection \<open>Admin routes\<close>

datatype admin_op =
  ListActive
  | GetOne oid
  | Stats
  | Search string
  | Complete oid
  | Archive oid
  | Delete oid

text \<open>
  The handlers behind \<open>verifyToken\<close>. Only the stats handler has a \<open>try/catch\<close>; in
  the others a rejected store call rejects the handler's promise.
\<close>

fun handle :: "env \<Rightarrow> admin_op \<Rightarrow> store \<Rightarrow> outcome \<times> store" where
  "handle e ListActive db =
     (if store_ok e
      then (Responded 200 (BookingList (sort_desc (filter (\<lambda>b. \<not> archived b) db))), db)
      else (Escaped, db))"
| "handle e (GetOne i) db =
     (if store_ok e then (Responded 200 (BookingDoc (findById db i)), db)
      else (Escaped, db))"
| "handle e Stats db =
     (if store_ok e
      then (Responded 200
              (StatsBody
                (countDocuments (\<lambda>b. \<not> archived b) db)
                (countDocuments (\<lambda>b. status b = ''Pending'' \<and> \<not> archived b) db)
                (countDocuments (\<lambda>b. status b = ''Completed'' \<and> \<not> archived b) db)),
            db)
      else (Responded 500 (Message ''Error fetching stats''), db))"
| "handle e (Search term) db =
     (if store_ok e
      then (Responded 200
              (BookingList
                (filter (\<lambda>b. \<not> archived b \<and>
                   (regex_i e term (name b) \<or> regex_i e term (phone b)
                    \<or> regex_i e term (service b))) db)),
            db)
      else (Escaped, db))"
| "handle e (Complete i) db =
     (if store_ok e
      then (Responded 200 (Message ''Marked as completed''),
            findByIdAndUpdate (set_completed e) i db)
      else (Escaped, db))"
| "handle e (Archive i) db =
     (if store_ok e
      then (Responded 200 (Message ''Archived successfully''),
            findByIdAndUpdate (set_archived e) i db)
      else (Escaped, db))"
| "handle e (Delete i) db =
     (if store_ok e
      then (Responded 200 (Message ''Deleted successfully''), findByIdAndDelete i db)
      else (Escaped, db))"

text \<open>A route \<open>app.METHOD(path, verifyToken, handler)\<close>.\<close>

definition admin_route :: "env \<Rightarrow> string option \<Rightarrow> admin_op \<Rightarrow> store \<Rightarrow> outcome \<times> store" where
  "admin_route e header op db =
     (case verifyToken e header of
        Reject code msg \<Rightarrow> (Responded code (Message msg), db)
      | Next \<Rightarrow> handle e op db)"

text \<open>Every operation the server exposes on bookings.\<close>

datatype request = CreateBooking "create_body option" | AdminRequest "string option" admin_op

fun serve :: "env \<Rightarrow> request \<Rightarrow> store \<Rightarrow> outcome \<times> store" where
  "serve e (CreateBooking b) db = create_booking e b db"
| "serve e (AdminRequest header op) db = admin_route e header op db"

subsection \<open>Example data\<close>

text \<open>
  The spec's example request and the same with an empty phone, three stored bookings
  (the second is named Tomas with an accented a, character 225; the third is archived),
  and three answers of the collaborators: all well, the customer mail failing, the
  store failing. In all three the store folds the capital letters of Latin-1 (characters
  192 to 222 but 215) to their small letters.
\<close>

definition ana_body :: create_body where
  "ana_body =
     \<lparr>req_name = Some ''Ana'', req_email = Some ''a@x.com'', req_phone = Some ''555'',
      req_service = Some ''Oil Change'', req_date = Some ''2024-05-01'',
      req_message = None\<rparr>"

definition no_phone_body :: create_body where
  "no_phone_body = ana_body\<lparr>req_phone := Some []\<rparr>"

definition ana :: booking where
  "ana =
     \<lparr>bid = 1, name = ''Ana'', email = ''a@x.com'', phone = ''555'',
      service = ''Oil Change'', date = ''2024-05-01'', message = None,
      status = ''Pending'', archived = False, createdAt = 100, updatedAt = 100\<rparr>"

definition tomas :: booking where
  "tomas =
     \<lparr>bid = 2, name = ''Tom'' @ [char_of (225 :: nat)] @ ''s'', email = ''t@x.com'',
      phone = ''777'', service = ''Brakes'', date = ''2024-05-02'', message = Some ''hi'',
      status = ''Pending'', archived = False, createdAt = 200, updatedAt = 200\<rparr>"

definition bea :: booking where
  "bea =
     \<lparr>bid = 3, name = ''Bea'', email = ''b@x.com'', phone = ''999'',
      service = ''Tyres'', date = ''2024-04-01'', message = None,
      status = ''Pending'', archived = True, createdAt = 50, updatedAt = 60\<rparr>"

definition example_db :: store where
  "example_db = [ana, tomas, bea]"

definition env_up :: env where
  "env_up =
     \<lparr>now = 1000, new_id = 7, store_ok = True, mail_customer_ok = True,
      mail_admin_ok = True, jwt_verify = (\<lambda>t. t = ''good''),
      fold_other =
        (\<lambda>c. let n = (of_char c :: nat) in
           if 192 \<le> n \<and> n \<le> 222 \<and> n \<noteq> 215 then char_of (n + 32) else c),
      regex_other = (\<lambda>t s. False)\<rparr>"

definition env_mail_down :: env where
  "env_mail_down = env_up\<lparr>mail_customer_ok := False\<rparr>"

definition env_store_down :: env where
  "env_store_down = env_up\<lparr>store_ok := False\<rparr>"

section \<open>Properties\<close>

subsection \<open>Basic facts\<close>

lemma falsy_Some [simp]: "falsy (Some s) = (s = [])"
  by (simp add: falsy_def)

lemma falsy_None [simp]: "falsy None"
  by (simp add: falsy_def)

lemma length_findByIdAndUpdate [simp]: "length (findByIdAndUpdate f i db) = length db"
  by (induction db) auto

lemma nth_findByIdAndUpdate:
  "k < length db \<Longrightarrow>
   findByIdAndUpdate f i db ! k = db ! k
   \<or> (bid (db ! k) = i \<and> findByIdAndUpdate f i db ! k = f (db ! k))"
proof (induction db arbitrary: k)
  case Nil
  then show ?case by simp
next
  case (Cons b bs)
  show ?case
  proof (cases k)
    case 0
    then show ?thesis by simp
  next
    case (Suc m)
    with Cons.prems have "m < length bs" by simp
    from Cons.IH [OF this] Suc show ?thesis by auto
  qed
qed

lemma findById_update:
  assumes "\<And>b. bid (f b) = bid b"
  shows "findById (findByIdAndUpdate f j db) i =
           (if i = j then map_option f (findById db j) else findById db i)"
  using assms by (induction db) (auto simp: findById_def)

lemma findById_None_iff: "findById db i = None \<longleftrightarrow> i \<notin> bid ` set db"
  by (induction db) (auto simp: findById_def)

lemma findById_delete:
  assumes "distinct (map bid db)"
  shows "findById (findByIdAndDelete j db) i = (if i = j then None else findById db i)"
  using assms
proof (induction db)
  case Nil
  then show ?case by (simp add: findById_def)
next
  case (Cons b bs)
  then have "bid b = j \<Longrightarrow> findById bs j = None"
    by (simp add: findById_None_iff)
  with Cons show ?case by (auto simp: findById_def)
qed

lemma findById_append:
  "findById (db @ [x]) i =
     (case findById db i of Some b \<Rightarrow> Some b | None \<Rightarrow> if bid x = i then Some x else None)"
  by (induction db) (auto simp: findById_def)

lemma map_bid_update:
  assumes "\<And>b. bid (f b) = bid b"
  shows "map bid (findByIdAndUpdate f i db) = map bid db"
  using assms by (induction db) auto

lemma set_findByIdAndDelete: "set (findByIdAndDelete i db) \<subseteq> set db"
  by (induction db) auto

lemma distinct_findByIdAndDelete:
  "distinct (map bid db) \<Longrightarrow> distinct (map bid (findByIdAndDelete i db))"
proof (induction db)
  case Nil
  then show ?case by simp
next
  case (Cons b bs)
  from set_findByIdAndDelete [of i bs]
  have "bid ` set (findByIdAndDelete i bs) \<subseteq> bid ` set bs" by blast
  with Cons show ?case by auto
qed

text \<open>The store keeps its \<open>_id\<close>s unique when every inserted document gets a fresh one.\<close>

lemma serve_keeps_ids_distinct:
  assumes "distinct (map bid db)" and "new_id e \<notin> bid ` set db"
  shows "distinct (map bid (snd (serve e r db)))"
proof (cases r)
  case (CreateBooking body)
  with assms show ?thesis
    by (auto simp: create_booking_def new_booking_def split: option.splits)
next
  case (AdminRequest h op)
  show ?thesis
  proof (cases "verifyToken e h")
    case (Reject code msg)
    with AdminRequest assms show ?thesis by (simp add: admin_route_def)
  next
    case Next
    with AdminRequest assms show ?thesis
      by (cases op)
        (simp_all add: admin_route_def map_bid_update set_completed_def set_archived_def
           distinct_findByIdAndDelete)
  qed
qed

text \<open>A rejecting store call, per handler: only the stats handler answers.\<close>

lemma handle_store_failure:
  assumes "\<not> store_ok e"
  shows "handle e op db =
           (if op = Stats then Responded 500 (Message ''Error fetching stats'') else Escaped, db)"
  using assms by (cases op) simp_all

lemma example_ids: "distinct (map bid example_db)"
  by (simp add: example_db_def ana_def tomas_def bea_def)

subsection \<open>Creating a booking\<close>

text \<open>
  C1. The claim: every create request whose name, email, phone, service and date are
  present and non-empty strings persists exactly one new booking, with status
  \<open>"Pending"\<close> and \<open>archived\<close> false, and is answered 201 with
  \<open>{message: "Booking successful"}\<close>. The handler awaits the store write and two
  mails inside one \<open>try\<close>, so this holds as far as they succeed: when the store write
  succeeds, exactly one new booking is persisted, with status \<open>"Pending"\<close>, \<open>archived\<close>
  false and the fields of the request, and the answer is 201 with that message exactly
  when both mails succeed as well; when the store write fails, nothing is persisted and
  the answer is 500.
\<close>

theorem create_valid_persists:
  assumes "req_name b = Some n" "n \<noteq> []" "req_email b = Some m" "m \<noteq> []"
    and "req_phone b = Some p" "p \<noteq> []" "req_service b = Some s" "s \<noteq> []"
    and "req_date b = Some d" "d \<noteq> []"
  shows "(store_ok e \<longrightarrow>
           (\<exists>doc. snd (create_booking e (Some b) db) = db @ [doc]
              \<and> status doc = ''Pending'' \<and> archived doc = False
              \<and> name doc = n \<and> email doc = m \<and> phone doc = p \<and> service doc = s
              \<and> date doc = d \<and> message doc = req_message b)
           \<and> (fst (create_booking e (Some b) db) =
                  Responded 201 (Message ''Booking successful'')
                \<longleftrightarrow> mail_customer_ok e \<and> mail_admin_ok e))
       \<and> (\<not> store_ok e \<longrightarrow>
            create_booking e (Some b) db = (Responded 500 (Message ''Server error''), db))"
  using assms by (simp add: create_booking_def new_booking_def)

theorem create_valid_persists_witness:
  "store_ok env_up \<and> mail_customer_ok env_up \<and> mail_admin_ok env_up
   \<and> create_booking env_up (Some ana_body) example_db =
     (Responded 201 (Message ''Booking successful''),
      example_db @
      [\<lparr>bid = 7, name = ''Ana'', email = ''a@x.com'', phone = ''555'',
        service = ''Oil Change'', date = ''2024-05-01'', message = None,
        status = ''Pending'', archived = False, createdAt = 1000, updatedAt = 1000\<rparr>])"
proof -
  have ok: "store_ok env_up" "mail_customer_ok env_up" "mail_admin_ok env_up"
    by (simp_all add: env_up_def)
  have b: "req_name ana_body = Some ''Ana''" "req_email ana_body = Some ''a@x.com''"
    "req_phone ana_body = Some ''555''" "req_service ana_body = Some ''Oil Change''"
    "req_date ana_body = Some ''2024-05-01''"
    by (simp_all add: ana_body_def)
  from create_valid_persists [OF b(1) _ b(2) _ b(3) _ b(4) _ b(5), of env_up example_db] ok
  have "fst (create_booking env_up (Some ana_body) example_db) =
      Responded 201 (Message ''Booking successful'')"
    by simp
  moreover have "snd (create_booking env_up (Some ana_body) example_db) =
      example_db @
      [\<lparr>bid = 7, name = ''Ana'', email = ''a@x.com'', phone = ''555'',
        service = ''Oil Change'', date = ''2024-05-01'', message = None,
        status = ''Pending'', archived = False, createdAt = 1000, updatedAt = 1000\<rparr>]"
    by (simp add: create_booking_def new_booking_def ana_body_def env_up_def)
  ultimately show ?thesis using ok by (simp add: prod_eq_iff)
qed

text \<open>
  The spec's example request on the example store: with the store write failing nothing
  is persisted and the answer is 500; with the store write succeeding and the admin
  mail, or the customer mail, failing the answer is 500 as well.
\<close>

theorem create_valid_counterexample:
  "create_booking env_store_down (Some ana_body) example_db =
     (Responded 500 (Message ''Server error''), example_db)
   \<and> fst (create_booking (env_up\<lparr>mail_admin_ok := False\<rparr>) (Some ana_body) example_db) =
       Responded 500 (Message ''Server error'')
   \<and> fst (create_booking env_mail_down (Some ana_body) example_db) =
       Responded 500 (Message ''Server error'')"
  by (simp add: create_booking_def ana_body_def env_store_down_def env_mail_down_def
        env_up_def)

text \<open>
  C2. The claim: a create request in which at least one of name, email, phone, service
  and date is missing or empty is answered 400 and persists nothing. For a request
  whose body was parsed this holds: the answer is 400 and the store is unchanged. A
  request with no parsed body at all (\<open>req.body\<close> undefined) has every field missing,
  and is answered 500, not 400, because the destructuring throws inside the \<open>try\<close>;
  the store is unchanged there too.
\<close>

theorem create_missing_field_rejected:
  "(\<forall>b. body = Some b
        \<and> (\<exists>v \<in> {req_name b, req_email b, req_phone b, req_service b, req_date b}.
              v = None \<or> v = Some [])
      \<longrightarrow> create_booking e body db =
            (Responded 400 (Message ''All required fields are required''), db))
   \<and> (body = None \<longrightarrow>
        create_booking e body db = (Responded 500 (Message ''Server error''), db))"
proof (intro conjI allI impI)
  fix b
  assume a: "body = Some b
        \<and> (\<exists>v \<in> {req_name b, req_email b, req_phone b, req_service b, req_date b}.
              v = None \<or> v = Some [])"
  then have "falsy (req_name b) \<or> falsy (req_email b) \<or> falsy (req_phone b)
      \<or> falsy (req_service b) \<or> falsy (req_date b)"
    by auto
  with a show "create_booking e body db =
      (Responded 400 (Message ''All required fields are required''), db)"
    by (simp add: create_booking_def)
next
  assume "body = None"
  then show "create_booking e body db = (Responded 500 (Message ''Server error''), db)"
    by (simp add: create_booking_def)
qed

theorem create_missing_field_rejected_witness:
  "req_phone no_phone_body = Some []
   \<and> create_booking env_up (Some no_phone_body) example_db =
       (Responded 400 (Message ''All required fields are required''), example_db)
   \<and> create_booking env_mail_down None example_db =
       (Responded 500 (Message ''Server error''), example_db)"
proof -
  have h: "req_phone no_phone_body = Some []"
    by (simp add: no_phone_body_def)
  from create_missing_field_rejected [of "Some no_phone_body" env_up example_db] h
  have 1: "create_booking env_up (Some no_phone_body) example_db =
       (Responded 400 (Message ''All required fields are required''), example_db)"
    by simp
  from create_missing_field_rejected [of None env_mail_down example_db]
  have 2: "create_booking env_mail_down None example_db =
       (Responded 500 (Message ''Server error''), example_db)"
    by simp
  from h 1 2 show ?thesis by simp
qed

text \<open>
  A create request with no parsed body, every collaborator well: every required field
  is missing, the answer is 500 and not 400.
\<close>

theorem create_no_body_counterexample:
  "create_booking env_up None example_db =
     (Responded 500 (Message ''Server error''), example_db)
   \<and> fst (create_booking env_up None example_db) \<noteq>
       Responded 400 (Message ''All required fields are required'')"
  by (simp add: create_booking_def)

text \<open>
  C4. The claim: when the store write of a valid create request succeeds, a failing
  notification neither rolls the booking back nor fails the create. The first half
  holds, the second does not: the mails are awaited inside the handler's \<open>try\<close>, so a
  failing mail ends in the \<open>catch\<close> and the create is answered 500, with the booking
  already persisted.
\<close>

theorem create_mail_failure:
  assumes "req_name b = Some n" "n \<noteq> []" "req_email b = Some m" "m \<noteq> []"
    and "req_phone b = Some p" "p \<noteq> []" "req_service b = Some s" "s \<noteq> []"
    and "req_date b = Some d" "d \<noteq> []"
    and "store_ok e" and "\<not> mail_customer_ok e \<or> \<not> mail_admin_ok e"
  shows "\<exists>doc. create_booking e (Some b) db =
                 (Responded 500 (Message ''Server error''), db @ [doc])
           \<and> status doc = ''Pending'' \<and> archived doc = False
           \<and> name doc = n \<and> email doc = m \<and> phone doc = p \<and> service doc = s
           \<and> date doc = d \<and> message doc = req_message b"
  using assms by (auto simp: create_booking_def new_booking_def)

theorem create_mail_failure_witness:
  "store_ok (env_up\<lparr>mail_admin_ok := False\<rparr>)
   \<and> create_booking (env_up\<lparr>mail_admin_ok := False\<rparr>) (Some ana_body) [] =
       (Responded 500 (Message ''Server error''),
        [\<lparr>bid = 7, name = ''Ana'', email = ''a@x.com'', phone = ''555'',
          service = ''Oil Change'', date = ''2024-05-01'', message = None,
          status = ''Pending'', archived = False, createdAt = 1000, updatedAt = 1000\<rparr>])"
proof -
  let ?e = "env_up\<lparr>mail_admin_ok := False\<rparr>"
  have ok: "store_ok ?e" by (simp add: env_up_def)
  have "\<exists>doc. create_booking ?e (Some ana_body) [] = (Responded 500 (Message ''Server error''), [] @ [doc])
           \<and> status doc = ''Pending'' \<and> archived doc = False
           \<and> name doc = ''Ana'' \<and> email doc = ''a@x.com'' \<and> phone doc = ''555''
           \<and> service doc = ''Oil Change'' \<and> date doc = ''2024-05-01''
           \<and> message doc = req_message ana_body"
    by (rule create_mail_failure) (simp_all add: ana_body_def env_up_def)
  then have "fst (create_booking ?e (Some ana_body) []) = Responded 500 (Message ''Server error'')"
    by auto
  moreover have "snd (create_booking ?e (Some ana_body) []) =
        [\<lparr>bid = 7, name = ''Ana'', email = ''a@x.com'', phone = ''555'',
          service = ''Oil Change'', date = ''2024-05-01'', message = None,
          status = ''Pending'', archived = False, createdAt = 1000, updatedAt = 1000\<rparr>]"
    by (simp add: create_booking_def new_booking_def ana_body_def env_up_def)
  ultimately show ?thesis using ok by (simp add: prod_eq_iff)
qed

text \<open>
  The spec's example request, with the store write succeeding and the customer mail
  failing: the create does not report success.
\<close>

theorem create_mail_failure_counterexample:
  "store_ok env_mail_down
   \<and> fst (create_booking env_mail_down (Some ana_body) []) \<noteq>
       Responded 201 (Message ''Booking successful'')
   \<and> fst (create_booking env_mail_down (Some ana_body) []) =
       Responded 500 (Message ''Server error'')
   \<and> length (snd (create_booking env_mail_down (Some ana_body) [])) = 1"
  by (simp add: create_booking_def ana_body_def env_mail_down_def env_up_def)

subsection \<open>Listing active bookings\<close>

lemma mset_insert_desc: "mset (insert_desc b xs) = add_mset b (mset xs)"
  by (induction xs) auto

lemma mset_sort_desc: "mset (sort_desc xs) = mset xs"
  by (induction xs) (auto simp: mset_insert_desc)

lemma set_insert_desc: "set (insert_desc b xs) = insert b (set xs)"
  by (induction xs) auto

lemma sorted_insert_desc:
  "sorted_wrt (\<lambda>x y. createdAt y \<le> createdAt x) xs \<Longrightarrow>
   sorted_wrt (\<lambda>x y. createdAt y \<le> createdAt x) (insert_desc b xs)"
  by (induction xs) (auto simp: set_insert_desc)

lemma sorted_sort_desc: "sorted_wrt (\<lambda>x y. createdAt y \<le> createdAt x) (sort_desc xs)"
  by (induction xs) (auto simp: sorted_insert_desc)

text \<open>
  C3. \<open>GET /api/bookings\<close> returns exactly the bookings whose \<open>archived\<close> flag is false
  (the same documents, each as often as it is stored), newest first by creation time,
  and none with \<open>archived\<close> true. Stated for a request whose store query resolves.
\<close>

theorem list_active_newest_first:
  assumes "store_ok e"
  shows "\<exists>xs. handle e ListActive db = (Responded 200 (BookingList xs), db)
           \<and> mset xs = mset (filter (\<lambda>b. \<not> archived b) db)
           \<and> sorted_wrt (\<lambda>x y. createdAt y \<le> createdAt x) xs
           \<and> (\<forall>b \<in> set xs. \<not> archived b)"
proof -
  let ?xs = "sort_desc (filter (\<lambda>b. \<not> archived b) db)"
  have "handle e ListActive db = (Responded 200 (BookingList ?xs), db)"
    using assms by simp
  moreover have m: "mset ?xs = mset (filter (\<lambda>b. \<not> archived b) db)"
    by (rule mset_sort_desc)
  moreover have "sorted_wrt (\<lambda>x y. createdAt y \<le> createdAt x) ?xs"
    by (rule sorted_sort_desc)
  moreover have "\<forall>b \<in> set ?xs. \<not> archived b"
  proof -
    have "set ?xs = set (filter (\<lambda>b. \<not> archived b) db)"
      using m by (rule mset_eq_setD)
    then show ?thesis by simp
  qed
  ultimately show ?thesis by blast
qed

theorem list_active_newest_first_witness:
  "store_ok env_up
   \<and> handle env_up ListActive example_db = (Responded 200 (BookingList [tomas, ana]), example_db)"
proof -
  have ok: "store_ok env_up" by (simp add: env_up_def)
  from list_active_newest_first [OF ok, of example_db]
  obtain xs where "handle env_up ListActive example_db = (Responded 200 (BookingList xs), example_db)"
    by blast
  moreover have "fst (handle env_up ListActive example_db) = Responded 200 (BookingList [tomas, ana])"
    by (simp add: env_up_def example_db_def ana_def tomas_def bea_def)
  ultimately show ?thesis using ok by simp
qed

subsection \<open>Dashboard counts\<close>

lemma count_update_leave:
  assumes "findById db i = Some b" "P b" "\<not> P (f b)"
  shows "countDocuments P db = Suc (countDocuments P (findByIdAndUpdate f i db))"
  using assms by (induction db) (auto simp: findById_def countDocuments_def)

lemma count_update_enter:
  assumes "findById db i = Some b" "\<not> P b" "P (f b)"
  shows "countDocuments P (findByIdAndUpdate f i db) = Suc (countDocuments P db)"
  using assms by (induction db) (auto simp: findById_def countDocuments_def)

lemma count_update_same:
  assumes "\<And>b. P (f b) = P b"
  shows "countDocuments P (findByIdAndUpdate f i db) = countDocuments P db"
  using assms by (induction db) (auto simp: countDocuments_def)

text \<open>
  C5. The claim: after \<open>markCompleted(id)\<close> on a booking that was \<open>"Pending"\<close>, the
  dashboard's \<open>completed\<close> count is one higher and its \<open>pending\<close> count one lower. The
  counts are over non-archived bookings only, and an archived booking can be completed
  as well, so the claim holds for a booking that is not archived: then \<open>completed\<close>
  rises by one, \<open>pending\<close> falls by one and \<open>total\<close> stays. Stated for requests whose
  store calls resolve.
\<close>

theorem complete_moves_one_count:
  assumes "findById db i = Some b" "status b = ''Pending''" "\<not> archived b"
    and "store_ok e0" "store_ok e1" "store_ok e2"
  shows "\<exists>t p c db'.
           handle e0 Stats db = (Responded 200 (StatsBody t p c), db)
           \<and> handle e1 (Complete i) db = (Responded 200 (Message ''Marked as completed''), db')
           \<and> handle e2 Stats db' = (Responded 200 (StatsBody t (p - 1) (c + 1)), db')
           \<and> 0 < p"
proof -
  let ?f = "set_completed e1"
  let ?db' = "findByIdAndUpdate ?f i db"
  let ?T = "\<lambda>b. \<not> archived b"
  let ?P = "\<lambda>b. status b = ''Pending'' \<and> \<not> archived b"
  let ?C = "\<lambda>b. status b = ''Completed'' \<and> \<not> archived b"
  have t: "countDocuments ?T ?db' = countDocuments ?T db"
    by (rule count_update_same) (simp add: set_completed_def)
  have p: "countDocuments ?P db = Suc (countDocuments ?P ?db')"
    using assms(1-3) by (intro count_update_leave [where b = b]) (simp_all add: set_completed_def)
  have c: "countDocuments ?C ?db' = Suc (countDocuments ?C db)"
    using assms(1-3) by (intro count_update_enter [where b = b]) (simp_all add: set_completed_def)
  have "handle e0 Stats db =
          (Responded 200
             (StatsBody (countDocuments ?T db) (countDocuments ?P db) (countDocuments ?C db)), db)"
    using assms(4) by simp
  moreover have "handle e1 (Complete i) db =
          (Responded 200 (Message ''Marked as completed''), ?db')"
    using assms(5) by simp
  moreover have "handle e2 Stats ?db' =
          (Responded 200
             (StatsBody (countDocuments ?T db) (countDocuments ?P db - 1)
                (countDocuments ?C db + 1)), ?db')"
    using assms(6) t p c by simp
  moreover have "0 < countDocuments ?P db"
    using p by simp
  ultimately show ?thesis by blast
qed

theorem complete_moves_one_count_witness:
  "findById example_db 1 = Some ana \<and> status ana = ''Pending'' \<and> \<not> archived ana
   \<and> fst (handle env_up Stats example_db) = Responded 200 (StatsBody 2 2 0)
   \<and> fst (handle env_up Stats (snd (handle env_up (Complete 1) example_db))) =
       Responded 200 (StatsBody 2 1 1)"
proof -
  have f: "findById example_db 1 = Some ana"
    by (simp add: findById_def example_db_def ana_def)
  have s: "status ana = ''Pending''" and a: "\<not> archived ana"
    by (simp_all add: ana_def)
  have ok: "store_ok env_up" by (simp add: env_up_def)
  from complete_moves_one_count [OF f s a ok ok ok]
  obtain t p c db' where
    1: "handle env_up Stats example_db = (Responded 200 (StatsBody t p c), example_db)" and
    2: "handle env_up (Complete 1) example_db = (Responded 200 (Message ''Marked as completed''), db')" and
    3: "handle env_up Stats db' = (Responded 200 (StatsBody t (p - 1) (c + 1)), db')"
    by blast
  have "handle env_up Stats example_db = (Responded 200 (StatsBody 2 2 0), example_db)"
    by (simp add: env_up_def countDocuments_def example_db_def ana_def tomas_def bea_def)
  with 1 have "t = 2" "p = 2" "c = 0" by simp_all
  with 1 2 3 f s a show ?thesis by simp
qed

text \<open>
  The archived booking of the example store is \<open>"Pending"\<close>; completing it leaves both
  counts as they were.
\<close>

theorem complete_archived_counterexample:
  "findById example_db 3 = Some bea \<and> status bea = ''Pending''
   \<and> handle env_up (Complete 3) example_db =
       (Responded 200 (Message ''Marked as completed''),
        [ana, tomas, bea\<lparr>status := ''Completed'', updatedAt := 1000\<rparr>])
   \<and> fst (handle env_up Stats example_db) = Responded 200 (StatsBody 2 2 0)
   \<and> fst (handle env_up Stats (snd (handle env_up (Complete 3) example_db))) =
       Responded 200 (StatsBody 2 2 0)"
  by (simp add: findById_def env_up_def countDocuments_def set_completed_def example_db_def
        ana_def tomas_def bea_def)

subsection \<open>Searching\<close>

lemma rx_compile_literal:
  "\<forall>c \<in> set t. \<not> is_meta c \<Longrightarrow> rx_compile t = Some (map Lit t)"
proof (induction t)
  case Nil
  then show ?case by simp
next
  case (Cons c t)
  then have "c \<noteq> CHR ''.''" by (auto simp: is_meta_def)
  with Cons show ?case by (simp add: rx_atom_of_def)
qed

lemma rx_prefix_literal:
  "rx_prefix f (map Lit t) s = prefix (map f t) (map f s)"
  by (induction f "map Lit t" s arbitrary: t rule: rx_prefix.induct) auto

lemma rx_search_literal:
  "rx_search f (map Lit t) s = sublist (map f t) (map f s)"
proof (induction s)
  case Nil
  then show ?case by (cases t) simp_all
next
  case (Cons c s)
  have "rx_search f (map Lit t) (c # s) =
          (rx_prefix f (map Lit t) (c # s) \<or> rx_search f (map Lit t) s)"
    by simp
  also have "\<dots> = (prefix (map f t) (map f (c # s)) \<or> sublist (map f t) (map f s))"
    using Cons by (simp only: rx_prefix_literal)
  also have "\<dots> = sublist (map f t) (map f (c # s))"
    by (simp add: sublist_Cons_right)
  finally show ?case .
qed

lemma regex_i_literal:
  "\<forall>c \<in> set t. \<not> is_meta c \<Longrightarrow> regex_i e t s = ci_contains e t s"
  by (simp add: regex_i_def rx_compile_literal rx_search_literal ci_contains_def)

text \<open>The folding of ASCII characters does not depend on the store.\<close>

lemma char_of_116: "char_of (116 :: nat) = CHR ''t''"
  by code_simp

lemma to_lower_tom:
  "map (to_lower e) ''tom'' = ''tom''" "map (to_lower e) ''Tom'' = ''tom''"
  by (simp_all add: to_lower_def char_of_116)

lemma tom_not_meta: "\<forall>c \<in> set ''tom''. \<not> is_meta c"
  by (simp add: is_meta_def)

lemma ci_contains_tom: "ci_contains e ''tom'' (''Tom'' @ rest)"
  unfolding ci_contains_def map_append to_lower_tom by (rule sublist_append_rightI)

text \<open>
  C6. The claim: for every term, the search returns exactly the active bookings whose
  name, phone or service contains the term as a substring, ignoring case; \<open>tom\<close>
  finds a booking named Tomas with an accented a. The handler passes the term to
  \<open>$regex\<close> as it is, so the term is a pattern, not a literal. For every term without
  a regular-expression metacharacter the two agree: the search returns exactly the
  active bookings one of whose name, phone and service contains the term, ignoring
  case; and \<open>tom\<close> does find every active booking of that name. Stated for a request
  whose store query resolves.
\<close>

theorem search_literal_term:
  assumes "\<forall>c \<in> set t. \<not> is_meta c" and "store_ok e"
  shows "handle e (Search t) db =
           (Responded 200
              (BookingList
                 (filter (\<lambda>b. \<not> archived b \<and>
                    (ci_contains e t (name b) \<or> ci_contains e t (phone b)
                     \<or> ci_contains e t (service b)))
                  db)),
            db)
       \<and> (\<forall>b \<in> set db. \<not> archived b \<and> name b = ''Tom'' @ [char_of (225 :: nat)] @ ''s''
            \<longrightarrow> (\<exists>xs. handle e (Search ''tom'') db = (Responded 200 (BookingList xs), db)
                   \<and> b \<in> set xs))"
proof
  show "handle e (Search t) db =
           (Responded 200
              (BookingList
                 (filter (\<lambda>b. \<not> archived b \<and>
                    (ci_contains e t (name b) \<or> ci_contains e t (phone b)
                     \<or> ci_contains e t (service b)))
                  db)),
            db)"
    using assms by (simp add: regex_i_literal)
next
  show "\<forall>b \<in> set db. \<not> archived b \<and> name b = ''Tom'' @ [char_of (225 :: nat)] @ ''s''
            \<longrightarrow> (\<exists>xs. handle e (Search ''tom'') db = (Responded 200 (BookingList xs), db)
                   \<and> b \<in> set xs)"
  proof (intro ballI impI)
    fix b
    assume b: "b \<in> set db"
      and "\<not> archived b \<and> name b = ''Tom'' @ [char_of (225 :: nat)] @ ''s''"
    then have "\<not> archived b" and "ci_contains e ''tom'' (name b)"
      using ci_contains_tom [of e "[char_of (225 :: nat)] @ ''s''"] by simp_all
    with b have "b \<in> set (filter (\<lambda>b. \<not> archived b \<and>
                    (ci_contains e ''tom'' (name b) \<or> ci_contains e ''tom'' (phone b)
                     \<or> ci_contains e ''tom'' (service b))) db)"
      by simp
    moreover have "handle e (Search ''tom'') db =
           (Responded 200
              (BookingList
                 (filter (\<lambda>b. \<not> archived b \<and>
                    (ci_contains e ''tom'' (name b) \<or> ci_contains e ''tom'' (phone b)
                     \<or> ci_contains e ''tom'' (service b)))
                  db)),
            db)"
      using assms(2) tom_not_meta by (simp add: regex_i_literal)
    ultimately show "\<exists>xs. handle e (Search ''tom'') db = (Responded 200 (BookingList xs), db)
                   \<and> b \<in> set xs"
      by blast
  qed
qed

theorem search_literal_term_witness:
  "store_ok env_up
   \<and> handle env_up (Search ''tom'') example_db =
       (Responded 200 (BookingList [tomas]), example_db)
   \<and> handle env_up (Search (''TOM'' @ [char_of (193 :: nat)] @ ''S'')) example_db =
       (Responded 200 (BookingList [tomas]), example_db)
   \<and> handle env_up (Search ''5'') example_db =
       (Responded 200 (BookingList [ana]), example_db)"
proof -
  have ok: "store_ok env_up" by (simp add: env_up_def)
  have lit: "\<forall>c \<in> set ''tom''. \<not> is_meta c"
    "\<forall>c \<in> set (''TOM'' @ [char_of (193 :: nat)] @ ''S''). \<not> is_meta c"
    "\<forall>c \<in> set ''5''. \<not> is_meta c"
    by code_simp+
  have arch: "archived bea" "\<not> archived ana" "\<not> archived tomas"
    by (simp_all add: bea_def ana_def tomas_def)
  have tom: "ci_contains env_up ''tom'' (name tomas)"
    "\<not> ci_contains env_up ''tom'' (phone tomas)" "\<not> ci_contains env_up ''tom'' (service tomas)"
    "\<not> ci_contains env_up ''tom'' (name ana)" "\<not> ci_contains env_up ''tom'' (phone ana)"
    "\<not> ci_contains env_up ''tom'' (service ana)"
    unfolding tomas_def ana_def by code_simp+
  have cap: "ci_contains env_up (''TOM'' @ [char_of (193 :: nat)] @ ''S'') (name tomas)"
    "\<not> ci_contains env_up (''TOM'' @ [char_of (193 :: nat)] @ ''S'') (name ana)"
    "\<not> ci_contains env_up (''TOM'' @ [char_of (193 :: nat)] @ ''S'') (phone ana)"
    "\<not> ci_contains env_up (''TOM'' @ [char_of (193 :: nat)] @ ''S'') (service ana)"
    unfolding tomas_def ana_def by code_simp+
  have five: "ci_contains env_up ''5'' (phone ana)"
    "\<not> ci_contains env_up ''5'' (name tomas)" "\<not> ci_contains env_up ''5'' (phone tomas)"
    "\<not> ci_contains env_up ''5'' (service tomas)"
    unfolding tomas_def ana_def by code_simp+
  from search_literal_term [OF lit(1) ok, of example_db] tom arch
  have 1: "handle env_up (Search ''tom'') example_db =
       (Responded 200 (BookingList [tomas]), example_db)"
    by (simp add: example_db_def)
  from search_literal_term [OF lit(2) ok, of example_db] cap arch
  have 2: "handle env_up (Search (''TOM'' @ [char_of (193 :: nat)] @ ''S'')) example_db =
       (Responded 200 (BookingList [tomas]), example_db)"
    by (simp add: example_db_def)
  from search_literal_term [OF lit(3) ok, of example_db] five arch
  have 3: "handle env_up (Search ''5'') example_db =
       (Responded 200 (BookingList [ana]), example_db)"
    by (simp add: example_db_def)
  from ok 1 2 3 show ?thesis by simp
qed

text \<open>
  In the term \<open>a.a\<close> the dot is the pattern for any character: the search returns
  the booking named Ana, which has no \<open>a.a\<close> in its name, phone or service.
\<close>

theorem search_dot_counterexample:
  "fst (handle env_up (Search ''a.a'') example_db) = Responded 200 (BookingList [ana])
   \<and> \<not> archived ana
   \<and> \<not> ci_contains env_up ''a.a'' (name ana) \<and> \<not> ci_contains env_up ''a.a'' (phone ana)
   \<and> \<not> ci_contains env_up ''a.a'' (service ana)"
proof -
  let ?p = "[Lit CHR ''a'', AnyChar, Lit CHR ''a'']"
  have dot: "\<And>s. regex_i env_up ''a.a'' s = rx_search (to_lower env_up) ?p s"
    by (simp add: regex_i_def rx_atom_of_def is_meta_def)
  have ok: "store_ok env_up" by (simp add: env_up_def)
  have hit: "rx_search (to_lower env_up) ?p (name ana)"
    unfolding ana_def by code_simp
  have miss: "\<not> rx_search (to_lower env_up) ?p (name tomas)"
    "\<not> rx_search (to_lower env_up) ?p (phone tomas)"
    "\<not> rx_search (to_lower env_up) ?p (service tomas)"
    unfolding tomas_def by code_simp+
  have arch: "archived bea" "\<not> archived ana" "\<not> archived tomas"
    by (simp_all add: bea_def ana_def tomas_def)
  have "fst (handle env_up (Search ''a.a'') example_db) = Responded 200 (BookingList [ana])"
    using ok hit miss arch by (simp add: dot example_db_def)
  moreover have "\<not> ci_contains env_up ''a.a'' (name ana)"
    "\<not> ci_contains env_up ''a.a'' (phone ana)"
    "\<not> ci_contains env_up ''a.a'' (service ana)"
    unfolding ana_def by code_simp+
  ultimately show ?thesis using arch by simp
qed

subsection \<open>The auth gate\<close>

text \<open>
  C7. A request to an admin route is answered 401 when it has no \<open>Authorization\<close>
  header, 401 when the header has no token segment (no second piece, or an empty one),
  and 403 when the token fails verification; in these cases the store is untouched.
  With a token that verifies, the route does what its handler does, and the handler
  answers 200 when its store calls resolve.
\<close>

theorem admin_gate:
  "(header = None \<longrightarrow>
      admin_route e header op db = (Responded 401 (Message ''No token provided''), db))
   \<and> (\<forall>h. header = Some h \<and> (token_of h = None \<or> token_of h = Some []) \<longrightarrow>
        (\<exists>msg. admin_route e header op db = (Responded 401 (Message msg), db)))
   \<and> (\<forall>h t. header = Some h \<and> token_of h = Some t \<and> t \<noteq> [] \<and> \<not> jwt_verify e t \<longrightarrow>
        admin_route e header op db =
          (Responded 403 (Message ''Invalid or expired token''), db))
   \<and> (\<forall>h t. header = Some h \<and> token_of h = Some t \<and> t \<noteq> [] \<and> jwt_verify e t \<longrightarrow>
        admin_route e header op db = handle e op db
        \<and> (store_ok e \<longrightarrow> (\<exists>payload. fst (handle e op db) = Responded 200 payload)))"
proof (intro conjI allI impI)
  assume "header = None"
  then show "admin_route e header op db = (Responded 401 (Message ''No token provided''), db)"
    by (simp add: admin_route_def verifyToken_def)
next
  fix h
  assume "header = Some h \<and> (token_of h = None \<or> token_of h = Some [])"
  then show "\<exists>msg. admin_route e header op db = (Responded 401 (Message msg), db)"
    by (auto simp: admin_route_def verifyToken_def)
next
  fix h t
  assume "header = Some h \<and> token_of h = Some t \<and> t \<noteq> [] \<and> \<not> jwt_verify e t"
  moreover from this have "h \<noteq> []"
    by (auto simp: token_of_def)
  ultimately show "admin_route e header op db =
      (Responded 403 (Message ''Invalid or expired token''), db)"
    by (simp add: admin_route_def verifyToken_def)
next
  fix h t
  assume a: "header = Some h \<and> token_of h = Some t \<and> t \<noteq> [] \<and> jwt_verify e t"
  moreover from this have "h \<noteq> []"
    by (auto simp: token_of_def)
  ultimately show "admin_route e header op db = handle e op db"
    by (simp add: admin_route_def verifyToken_def)
  assume "store_ok e"
  then show "\<exists>payload. fst (handle e op db) = Responded 200 payload"
    by (cases op) simp_all
qed

theorem admin_gate_witness:
  "admin_route env_up None Stats example_db =
     (Responded 401 (Message ''No token provided''), example_db)
   \<and> token_of ''Bearer'' = None
   \<and> fst (admin_route env_up (Some ''Bearer'') Stats example_db) =
       Responded 401 (Message ''Invalid token format'')
   \<and> token_of ''Bearer bad'' = Some ''bad''
   \<and> admin_route env_up (Some ''Bearer bad'') Stats example_db =
       (Responded 403 (Message ''Invalid or expired token''), example_db)
   \<and> token_of ''Bearer good'' = Some ''good''
   \<and> admin_route env_up (Some ''Bearer good'') Stats example_db =
       (Responded 200 (StatsBody 2 2 0), example_db)"
proof -
  have t1: "token_of ''Bearer'' = None" and t2: "token_of ''Bearer bad'' = Some ''bad''"
    and t3: "token_of ''Bearer good'' = Some ''good''"
    by (simp_all add: token_of_def)
  have v: "\<not> jwt_verify env_up ''bad''" "jwt_verify env_up ''good''" "store_ok env_up"
    by (simp_all add: env_up_def)
  have st: "handle env_up Stats example_db = (Responded 200 (StatsBody 2 2 0), example_db)"
    by (simp add: env_up_def countDocuments_def example_db_def ana_def tomas_def bea_def)
  have m: "fst (admin_route env_up (Some ''Bearer'') Stats example_db) =
       Responded 401 (Message ''Invalid token format'')"
    by (simp add: admin_route_def verifyToken_def t1)
  from admin_gate [of None env_up Stats example_db]
  have 1: "admin_route env_up None Stats example_db =
     (Responded 401 (Message ''No token provided''), example_db)"
    by simp
  from admin_gate [of "Some ''Bearer bad''" env_up Stats example_db] t2 v
  have 3: "admin_route env_up (Some ''Bearer bad'') Stats example_db =
       (Responded 403 (Message ''Invalid or expired token''), example_db)"
    by simp
  from admin_gate [of "Some ''Bearer good''" env_up Stats example_db] t3 v
  have 4: "admin_route env_up (Some ''Bearer good'') Stats example_db =
       handle env_up Stats example_db"
    by simp
  from 1 m 3 4 st t1 t2 t3 show ?thesis by simp
qed

subsection \<open>Store failures\<close>

text \<open>
  C8. The claim: every route-level operation catches an unexpected failure and turns
  it into a 500 JSON response. The create and stats handlers do. The handlers of list,
  get-by-id, search, mark-complete, archive and delete have no \<open>try/catch\<close>: with a
  valid token and a rejecting store call, the rejection leaves the handler and the
  handler sends no response.
\<close>

theorem store_failure_escapes:
  "fst (create_booking env_store_down (Some ana_body) example_db) =
     Responded 500 (Message ''Server error'')
   \<and> fst (admin_route env_store_down (Some ''Bearer good'') Stats example_db) =
       Responded 500 (Message ''Error fetching stats'')
   \<and> fst (admin_route env_store_down (Some ''Bearer good'') ListActive example_db) = Escaped
   \<and> fst (admin_route env_store_down (Some ''Bearer good'') (GetOne 1) example_db) = Escaped
   \<and> fst (admin_route env_store_down (Some ''Bearer good'') (Search ''ana'') example_db) = Escaped
   \<and> fst (admin_route env_store_down (Some ''Bearer good'') (Complete 1) example_db) = Escaped
   \<and> fst (admin_route env_store_down (Some ''Bearer good'') (Archive 1) example_db) = Escaped
   \<and> fst (admin_route env_store_down (Some ''Bearer good'') (Delete 1) example_db) = Escaped"
  by (simp add: create_booking_def ana_body_def admin_route_def verifyToken_def token_of_def
        env_store_down_def env_up_def)

subsection \<open>The archived flag\<close>

lemma handle_findById:
  assumes "distinct (map bid db)" and "findById (snd (handle e op db)) i = Some b'"
  shows "findById db i = Some b'
       \<or> (\<exists>b. findById db i = Some b \<and> b' = set_completed e b)
       \<or> (\<exists>b. findById db i = Some b \<and> b' = set_archived e b \<and> op = Archive i)"
proof (cases "store_ok e")
  case False
  with assms(2) show ?thesis by (cases op) simp_all
next
  case True
  with assms show ?thesis
    by (cases op)
      (auto simp: findById_update findById_delete set_completed_def set_archived_def
            split: if_splits)
qed

lemma create_findById:
  assumes "findById (snd (create_booking e body db)) i = Some b'"
  shows "findById db i = Some b' \<or> (findById db i = None \<and> \<not> archived b')"
  using assms
  by (auto simp: create_booking_def findById_append new_booking_def
        split: if_splits option.splits)

lemma serve_findById:
  assumes "distinct (map bid db)" and "findById (snd (serve e r db)) i = Some b'"
  shows "findById db i = Some b'
       \<or> (findById db i = None \<and> \<not> archived b')
       \<or> (\<exists>b. findById db i = Some b \<and> b' = set_completed e b)
       \<or> (\<exists>b h. findById db i = Some b \<and> b' = set_archived e b
             \<and> r = AdminRequest h (Archive i))"
proof (cases r)
  case (CreateBooking body)
  with assms(2) create_findById [of e body db i b'] show ?thesis by auto
next
  case (AdminRequest h op)
  show ?thesis
  proof (cases "verifyToken e h")
    case (Reject code msg)
    with AdminRequest assms(2) show ?thesis by (simp add: admin_route_def)
  next
    case Next
    with AdminRequest assms(2) have "findById (snd (handle e op db)) i = Some b'"
      by (simp add: admin_route_def)
    from handle_findById [OF assms(1) this] AdminRequest show ?thesis by auto
  qed
qed

lemma archive_sets_flag:
  assumes "verifyToken e h = Next" "store_ok e" "findById db i = Some b"
  shows "findById (snd (serve e (AdminRequest h (Archive i)) db)) i = Some (set_archived e b)
       \<and> archived (set_archived e b)"
  using assms by (simp add: admin_route_def findById_update set_archived_def)

lemma create_starts_unarchived:
  assumes "\<forall>v \<in> {req_name body, req_email body, req_phone body, req_service body,
             req_date body}. v \<noteq> None \<and> v \<noteq> Some []"
    and "store_ok e"
  shows "snd (serve e (CreateBooking (Some body)) db) = db @ [new_booking e body]
       \<and> \<not> archived (new_booking e body)"
proof
  from assms(1) have "\<not> (falsy (req_name body) \<or> falsy (req_email body)
      \<or> falsy (req_phone body) \<or> falsy (req_service body) \<or> falsy (req_date body))"
    by (auto simp: falsy_def split: option.splits)
  with assms(2) show "snd (serve e (CreateBooking (Some body)) db) = db @ [new_booking e body]"
    by (simp add: create_booking_def)
  show "\<not> archived (new_booking e body)"
    by (simp add: new_booking_def)
qed

text \<open>
  C9. The \<open>archived\<close> flag only goes from false to true. Over every request the server
  accepts (create, and the admin operations list, get, stats, search, complete, archive,
  delete, with any header) and every answer of the collaborators, on a store whose
  \<open>_id\<close>s are unique: a booking that is archived and still exists afterwards is still
  archived; a booking that did not exist before is not archived; and a booking whose
  flag differs afterwards was the target of an archive request and is now archived.
  The two writes do happen: an archive request that passes the gate and whose store call
  resolves leaves the booking with that \<open>_id\<close> in the store with \<open>archived\<close> true, and
  a create request with the five required fields whose store write resolves appends one
  booking with \<open>archived\<close> false.
\<close>

theorem archived_monotonic:
  assumes "distinct (map bid db)"
  shows "(\<forall>i b b'. findById db i = Some b \<and> findById (snd (serve e r db)) i = Some b'
              \<and> archived b
            \<longrightarrow> archived b')
       \<and> (\<forall>i b'. findById db i = None \<and> findById (snd (serve e r db)) i = Some b'
            \<longrightarrow> \<not> archived b')
       \<and> (\<forall>i b b'. findById db i = Some b \<and> findById (snd (serve e r db)) i = Some b'
              \<and> archived b' \<noteq> archived b
            \<longrightarrow> (\<exists>h. r = AdminRequest h (Archive i)) \<and> archived b')
       \<and> (\<forall>h i b. r = AdminRequest h (Archive i) \<and> verifyToken e h = Next \<and> store_ok e
              \<and> findById db i = Some b
            \<longrightarrow> (\<exists>b'. findById (snd (serve e r db)) i = Some b' \<and> archived b'))
       \<and> (\<forall>body. r = CreateBooking (Some body)
              \<and> (\<forall>v \<in> {req_name body, req_email body, req_phone body, req_service body,
                         req_date body}. v \<noteq> None \<and> v \<noteq> Some [])
              \<and> store_ok e
            \<longrightarrow> (\<exists>doc. snd (serve e r db) = db @ [doc] \<and> \<not> archived doc))"
proof (intro conjI allI impI)
  fix i b b'
  assume "findById db i = Some b \<and> findById (snd (serve e r db)) i = Some b' \<and> archived b"
  with serve_findById [OF assms, of e r i b'] show "archived b'"
    by (auto simp: set_completed_def set_archived_def)
next
  fix i b'
  assume "findById db i = None \<and> findById (snd (serve e r db)) i = Some b'"
  with serve_findById [OF assms, of e r i b'] show "\<not> archived b'"
    by auto
next
  fix i b b'
  assume h: "findById db i = Some b \<and> findById (snd (serve e r db)) i = Some b'
              \<and> archived b' \<noteq> archived b"
  with serve_findById [OF assms, of e r i b'] show "\<exists>h. r = AdminRequest h (Archive i)"
    by (auto simp: set_completed_def set_archived_def)
  from h serve_findById [OF assms, of e r i b'] show "archived b'"
    by (auto simp: set_completed_def set_archived_def)
next
  fix h i b
  assume "r = AdminRequest h (Archive i) \<and> verifyToken e h = Next \<and> store_ok e
              \<and> findById db i = Some b"
  then show "\<exists>b'. findById (snd (serve e r db)) i = Some b' \<and> archived b'"
    using archive_sets_flag [of e h db i b] by blast
next
  fix body
  assume "r = CreateBooking (Some body)
              \<and> (\<forall>v \<in> {req_name body, req_email body, req_phone body, req_service body,
                         req_date body}. v \<noteq> None \<and> v \<noteq> Some [])
              \<and> store_ok e"
  then show "\<exists>doc. snd (serve e r db) = db @ [doc] \<and> \<not> archived doc"
    using create_starts_unarchived [of body e db] by blast
qed

theorem archived_monotonic_witness:
  "distinct (map bid example_db)
   \<and> findById example_db 3 = Some bea \<and> archived bea
   \<and> findById (snd (serve env_up (AdminRequest (Some ''Bearer good'') (Complete 3)) example_db)) 3
       = Some (bea\<lparr>status := ''Completed'', updatedAt := 1000\<rparr>)
   \<and> archived (bea\<lparr>status := ''Completed'', updatedAt := 1000\<rparr>)
   \<and> findById example_db 1 = Some ana \<and> \<not> archived ana
   \<and> findById (snd (serve env_up (AdminRequest (Some ''Bearer good'') (Archive 1)) example_db)) 1
       = Some (ana\<lparr>archived := True, updatedAt := 1000\<rparr>)
   \<and> archived (ana\<lparr>archived := True, updatedAt := 1000\<rparr>)
   \<and> findById example_db 7 = None
   \<and> snd (serve env_up (CreateBooking (Some ana_body)) example_db)
       = example_db @ [new_booking env_up ana_body]
   \<and> \<not> archived (new_booking env_up ana_body)"
proof -
  let ?c = "AdminRequest (Some ''Bearer good'') (Complete 3)"
  let ?a = "AdminRequest (Some ''Bearer good'') (Archive 1)"
  let ?n = "CreateBooking (Some ana_body)"
  let ?b' = "bea\<lparr>status := ''Completed'', updatedAt := 1000\<rparr>"
  let ?a' = "ana\<lparr>archived := True, updatedAt := 1000\<rparr>"
  have f: "findById example_db 3 = Some bea" "findById example_db 7 = None"
    "findById example_db 1 = Some ana"
    by (simp_all add: findById_def example_db_def ana_def tomas_def bea_def)
  have a: "archived bea" "\<not> archived ana" by (simp_all add: bea_def ana_def)
  have g: "verifyToken env_up (Some ''Bearer good'') = Next" "store_ok env_up"
    by (simp_all add: verifyToken_def token_of_def env_up_def)
  have v: "\<forall>v \<in> {req_name ana_body, req_email ana_body, req_phone ana_body,
              req_service ana_body, req_date ana_body}. v \<noteq> None \<and> v \<noteq> Some []"
    by (simp add: ana_body_def)
  have fc: "findById (snd (serve env_up ?c example_db)) 3 = Some ?b'"
    by (simp add: admin_route_def verifyToken_def token_of_def findById_def env_up_def
          set_completed_def example_db_def ana_def tomas_def bea_def)
  have fa: "findById (snd (serve env_up ?a example_db)) 1 = Some ?a'"
    by (simp add: admin_route_def verifyToken_def token_of_def findById_def env_up_def
          set_archived_def example_db_def ana_def tomas_def bea_def)
  have fn: "snd (serve env_up ?n example_db) = example_db @ [new_booking env_up ana_body]"
    by (simp add: create_booking_def ana_body_def env_up_def)
  from archived_monotonic [OF example_ids, of env_up ?c] f a fc
  have 1: "archived ?b'" by blast
  from archived_monotonic [OF example_ids, of env_up ?a] f g fa
  have 2: "archived ?a'" by fastforce
  from archived_monotonic [OF example_ids, of env_up ?n] v g fn
  have 3: "\<not> archived (new_booking env_up ana_body)" by fastforce
  from example_ids f a fc fa fn 1 2 3 show ?thesis by simp
qed

subsection \<open>What the two updates write\<close>

lemma complete_frame:
  assumes "k < length db"
  shows "let old = db ! k; new = snd (handle e (Complete i) db) ! k in
        bid new = bid old \<and> name new = name old \<and> email new = email old
        \<and> phone new = phone old \<and> service new = service old \<and> date new = date old
        \<and> message new = message old \<and> archived new = archived old
        \<and> createdAt new = createdAt old
        \<and> (bid old \<noteq> i \<longrightarrow> new = old)
        \<and> (new \<noteq> old \<longrightarrow> new = old\<lparr>status := ''Completed'', updatedAt := now e\<rparr>)"
proof (cases "store_ok e")
  case False
  then show ?thesis by (simp add: Let_def)
next
  case True
  from nth_findByIdAndUpdate [OF assms, of "set_completed e" i] True
  show ?thesis by (auto simp: Let_def set_completed_def)
qed

lemma archive_frame:
  assumes "k < length db"
  shows "let old = db ! k; new = snd (handle e (Archive i) db) ! k in
        bid new = bid old \<and> name new = name old \<and> email new = email old
        \<and> phone new = phone old \<and> service new = service old \<and> date new = date old
        \<and> message new = message old \<and> status new = status old
        \<and> createdAt new = createdAt old
        \<and> (bid old \<noteq> i \<longrightarrow> new = old)
        \<and> (new \<noteq> old \<longrightarrow> new = old\<lparr>archived := True, updatedAt := now e\<rparr>)"
proof (cases "store_ok e")
  case False
  then show ?thesis by (simp add: Let_def)
next
  case True
  from nth_findByIdAndUpdate [OF assms, of "set_archived e" i] True
  show ?thesis by (auto simp: Let_def set_archived_def)
qed

lemma complete_applies:
  "store_ok e \<Longrightarrow>
   findById (snd (handle e (Complete i) db)) i =
     map_option (\<lambda>b. b\<lparr>status := ''Completed'', updatedAt := now e\<rparr>) (findById db i)"
  by (simp add: findById_update set_completed_def [abs_def])

lemma archive_applies:
  "store_ok e \<Longrightarrow>
   findById (snd (handle e (Archive i) db)) i =
     map_option (\<lambda>b. b\<lparr>archived := True, updatedAt := now e\<rparr>) (findById db i)"
  by (simp add: findById_update set_archived_def [abs_def])

lemma handle_update_length:
  "length (snd (handle e (Complete i) db)) = length db"
  "length (snd (handle e (Archive i) db)) = length db"
  by simp_all

text \<open>
  C10. The claim: mark-complete writes only \<open>status\<close> and archive writes only
  \<open>archived\<close>, every other field and every other booking staying as it was. The schema
  has \<open>timestamps: true\<close>, so each update also sets \<open>updatedAt\<close>. Apart from that the
  claim holds: at every position of the collection, \<open>_id\<close>, name, email, phone, service,
  date, message and \<open>createdAt\<close> are unchanged, mark-complete leaves \<open>archived\<close> and
  archive leaves \<open>status\<close> unchanged, a booking with another \<open>_id\<close> is unchanged
  altogether, and a booking that changed differs from the old one in the target field
  and \<open>updatedAt\<close> only. The collection keeps its length, and when the store call
  resolves the booking with the \<open>_id\<close> does receive the update.
\<close>

theorem single_field_updates:
  "(\<forall>k < length db.
      let old = db ! k; new = snd (handle e (Complete i) db) ! k in
        bid new = bid old \<and> name new = name old \<and> email new = email old
        \<and> phone new = phone old \<and> service new = service old \<and> date new = date old
        \<and> message new = message old \<and> archived new = archived old
        \<and> createdAt new = createdAt old
        \<and> (bid old \<noteq> i \<longrightarrow> new = old)
        \<and> (new \<noteq> old \<longrightarrow> new = old\<lparr>status := ''Completed'', updatedAt := now e\<rparr>))
   \<and> (\<forall>k < length db.
      let old = db ! k; new = snd (handle e (Archive i) db) ! k in
        bid new = bid old \<and> name new = name old \<and> email new = email old
        \<and> phone new = phone old \<and> service new = service old \<and> date new = date old
        \<and> message new = message old \<and> status new = status old
        \<and> createdAt new = createdAt old
        \<and> (bid old \<noteq> i \<longrightarrow> new = old)
        \<and> (new \<noteq> old \<longrightarrow> new = old\<lparr>archived := True, updatedAt := now e\<rparr>))
   \<and> length (snd (handle e (Complete i) db)) = length db
   \<and> length (snd (handle e (Archive i) db)) = length db
   \<and> (store_ok e \<longrightarrow>
        findById (snd (handle e (Complete i) db)) i =
          map_option (\<lambda>b. b\<lparr>status := ''Completed'', updatedAt := now e\<rparr>) (findById db i)
        \<and> findById (snd (handle e (Archive i) db)) i =
          map_option (\<lambda>b. b\<lparr>archived := True, updatedAt := now e\<rparr>) (findById db i))"
  by (intro conjI allI impI complete_frame archive_frame handle_update_length
        complete_applies archive_applies)

theorem single_field_updates_witness:
  "store_ok env_up \<and> findById example_db 2 = Some tomas
   \<and> findById (snd (handle env_up (Complete 2) example_db)) 2 =
       Some (tomas\<lparr>status := ''Completed'', updatedAt := 1000\<rparr>)
   \<and> findById (snd (handle env_up (Archive 2) example_db)) 2 =
       Some (tomas\<lparr>archived := True, updatedAt := 1000\<rparr>)
   \<and> snd (handle env_up (Complete 2) example_db) ! 0 = ana
   \<and> snd (handle env_up (Archive 2) example_db) ! 2 = bea"
proof -
  have ok: "store_ok env_up" and n: "now env_up = 1000"
    by (simp_all add: env_up_def)
  have f: "findById example_db 2 = Some tomas"
    by (simp add: findById_def example_db_def ana_def tomas_def)
  have ids: "bid ana \<noteq> 2" "bid bea \<noteq> 2"
    by (simp_all add: ana_def bea_def)
  have nth: "example_db ! 0 = ana" "example_db ! 2 = bea" "length example_db = 3"
    by (simp_all add: example_db_def)
  note t = single_field_updates [of example_db env_up 2]
  from t ok f n have 1: "findById (snd (handle env_up (Complete 2) example_db)) 2 =
       Some (tomas\<lparr>status := ''Completed'', updatedAt := 1000\<rparr>)"
    by simp
  from t ok f n have 2: "findById (snd (handle env_up (Archive 2) example_db)) 2 =
       Some (tomas\<lparr>archived := True, updatedAt := 1000\<rparr>)"
    by simp
  from t have "\<forall>k < length example_db.
      let old = example_db ! k; new = snd (handle env_up (Complete 2) example_db) ! k in
        bid old \<noteq> 2 \<longrightarrow> new = old"
    by (simp add: Let_def)
  with nth ids have 3: "snd (handle env_up (Complete 2) example_db) ! 0 = ana"
    by (auto simp: Let_def)
  from t have "\<forall>k < length example_db.
      let old = example_db ! k; new = snd (handle env_up (Archive 2) example_db) ! k in
        bid old \<noteq> 2 \<longrightarrow> new = old"
    by (simp add: Let_def)
  with nth ids have 4: "snd (handle env_up (Archive 2) example_db) ! 2 = bea"
    by (auto simp: Let_def)
  from ok f 1 2 3 4 show ?thesis by simp
qed

text \<open>
  Completing the first booking of the example store at time 1000: its \<open>updatedAt\<close>,
  100 before, is 1000 afterwards.
\<close>

theorem update_touches_updatedAt_counterexample:
  "updatedAt (example_db ! 0) = 100
   \<and> bid (example_db ! 0) = 1
   \<and> updatedAt (snd (handle env_up (Complete 1) example_db) ! 0) = 1000
   \<and> updatedAt (snd (handle env_up (Archive 1) example_db) ! 0) = 1000"
  by (simp add: env_up_def set_completed_def set_archived_def example_db_def ana_def)

end
